theory Spec2Isabelle
  imports Complex_Main "HOL-Library.Sublist" "HOL-Library.Log_Nat"
begin

section \<open>Python values used by the monitor\<close>

text \<open>
  A naive \<open>datetime\<close> is a count of microseconds on the local calendar; its date, hour
  and minute are read off by division, and \<open>strftime\<close> to seconds drops the microseconds.
  A Python float is modelled by the rational it denotes; the arithmetic on floats is
  given with the report builder.
\<close>

type_synonym datetime = int




definition second_stamp :: "datetime \<Rightarrow> int" where
  "second_stamp t = t div 1000000"


text \<open>\<open>str(n)\<close> for an integer: its decimal digits, with a sign when negative.\<close>

definition digit_char :: "nat \<Rightarrow> char" where
  "digit_char d = ''0123456789'' ! d"

function str_nat :: "nat \<Rightarrow> string" where
  "str_nat n = (if n < 10 then [digit_char n] else str_nat (n div 10) @ [digit_char (n mod 10)])"
  by pat_completeness auto
termination
  by (relation "measure (\<lambda>n. n)") auto

declare str_nat.simps [simp del]

definition str_int :: "int \<Rightarrow> string" where
  "str_int i = (if i < 0 then CHR ''-'' # str_nat (nat (- i)) else str_nat (nat i))"

text \<open>\<open>str.upper()\<close> and \<open>str.lower()\<close> on ASCII letters.\<close>

definition upper_char :: "char \<Rightarrow> char" where
  "upper_char c =
     (case map_of (zip ''abcdefghijklmnopqrstuvwxyz'' ''ABCDEFGHIJKLMNOPQRSTUVWXYZ'') c of
        Some u \<Rightarrow> u | None \<Rightarrow> c)"

definition lower_char :: "char \<Rightarrow> char" where
  "lower_char c =
     (case map_of (zip ''ABCDEFGHIJKLMNOPQRSTUVWXYZ'' ''abcdefghijklmnopqrstuvwxyz'') c of
        Some u \<Rightarrow> u | None \<Rightarrow> c)"

definition upper :: "string \<Rightarrow> string" where
  "upper s = map upper_char s"

definition lower :: "string \<Rightarrow> string" where
  "lower s = map lower_char s"

text \<open>\<open>any(...)\<close> over a generator: stops at the first true element.\<close>

fun py_any :: "bool list \<Rightarrow> bool" where
  "py_any [] = False"
| "py_any (b # bs) = (if b then True else py_any bs)"

text \<open>\<open>sum(1 for x in xs if p(x))\<close>.\<close>

fun py_count :: "('a \<Rightarrow> bool) \<Rightarrow> 'a list \<Rightarrow> int" where
  "py_count p [] = 0"
| "py_count p (x # xs) = (if p x then 1 + py_count p xs else py_count p xs)"

text \<open>\<open>s.rstrip('/')\<close>.\<close>

definition rstrip_slash :: "string \<Rightarrow> string" where
  "rstrip_slash s = rev (dropWhile (\<lambda>c. c = CHR ''/'') (rev s))"

section \<open>keep\_alive.py: the prober\<close>

text \<open>
  A log entry is the dictionary \<open>log_ping\<close> writes; a probe result is the dictionary
  \<open>ping_endpoint\<close> returns, which has the same keys and the URL. The status is the
  string the code stores.
\<close>

record log_entry =
  timestamp :: datetime
  endpoint :: string
  http_method :: string
  status :: string
  response_time_ms :: "int option"
  status_code :: "int option"
  error :: "string option"

record probe_result = log_entry +
  url :: string

record keep_alive =
  base_url :: string
  endpoints :: "string list"
  methods :: "string list"
  timeout :: int

definition RenderKeepAlive :: "string \<Rightarrow> string list \<Rightarrow> string list \<Rightarrow> int \<Rightarrow> keep_alive" where
  "RenderKeepAlive b es ms t =
     \<lparr>base_url = (if b = [] then [] else rstrip_slash b),
      endpoints = (if es = [] then [''/ping'', ''/api/health''] else es),
      methods = (if ms = [] then [''GET'', ''HEAD''] else ms),
      timeout = t\<rparr>"

text \<open>
  What one HTTP request does: a response with its status code and the elapsed
  milliseconds, or one of the exceptions \<open>ping_endpoint\<close> catches.
\<close>

datatype verb = GET | HEAD

datatype http_outcome =
  Response int int
| Timeout
| ConnectionError string
| RequestException string
| OtherException string

definition request_verb :: "string \<Rightarrow> verb" where
  "request_verb m =
     (if upper m = ''GET'' then GET else if upper m = ''HEAD'' then HEAD else GET)"

definition ping_endpoint ::
  "keep_alive \<Rightarrow> (verb \<Rightarrow> string \<Rightarrow> http_outcome) \<Rightarrow> datetime \<Rightarrow> string \<Rightarrow> string \<Rightarrow> probe_result" where
  "ping_endpoint ka http now ep m =
     (let u = base_url ka @ ep;
          result = \<lparr>timestamp = now, endpoint = ep, http_method = m, status = ''DOWN'',
                    response_time_ms = None, status_code = None, error = None, url = u\<rparr>
      in case http (request_verb m) u of
           Response code elapsed \<Rightarrow>
             (let result = result\<lparr>response_time_ms := Some elapsed, status_code := Some code\<rparr>
              in if code < 400 then result\<lparr>status := ''UP''\<rparr>
                 else result\<lparr>error := Some (''HTTP '' @ str_int code)\<rparr>)
         | Timeout \<Rightarrow>
             result\<lparr>error := Some (''Request timeout after '' @ str_int (timeout ka) @ ''s''),
                    response_time_ms := Some (timeout ka * 1000)\<rparr>
         | ConnectionError e \<Rightarrow> result\<lparr>error := Some (''Connection error: '' @ e)\<rparr>
         | RequestException e \<Rightarrow> result\<lparr>error := Some (''Request error: '' @ e)\<rparr>
         | OtherException e \<Rightarrow> result\<lparr>error := Some (''Unexpected error: '' @ e)\<rparr>)"

definition ping_all_endpoints ::
  "keep_alive \<Rightarrow> (verb \<Rightarrow> string \<Rightarrow> http_outcome) \<Rightarrow> datetime \<Rightarrow> probe_result list" where
  "ping_all_endpoints ka http now =
     concat (map (\<lambda>ep. map (\<lambda>m. ping_endpoint ka http now ep m) (methods ka)) (endpoints ka))"

definition is_service_healthy :: "probe_result list \<Rightarrow> bool" where
  "is_service_healthy results = py_any (map (\<lambda>result. status result = ''UP'') results)"

section \<open>monitoring.py: the log store and the report builder\<close>

text \<open>
  The monitor holds the list of log entries; \<open>_save_logs\<close> mirrors it to a file and
  swallows any failure, so the list is the state. Entries carry the timestamp already
  parsed: \<open>log_ping\<close> writes \<open>datetime.now().isoformat()\<close>, which \<open>fromisoformat\<close> reads back.
\<close>

definition log_ping ::
  "log_entry list \<Rightarrow> datetime \<Rightarrow> string \<Rightarrow> string \<Rightarrow> string \<Rightarrow> int option \<Rightarrow>
   string option \<Rightarrow> int option \<Rightarrow> log_entry list" where
  "log_ping logs now ep m st rt err code =
     logs @ [\<lparr>timestamp = now, endpoint = ep, http_method = m, status = st,
              response_time_ms = rt, status_code = code, error = err\<rparr>]"

text \<open>The filtering loop of \<open>get_logs\<close>; each \<open>continue\<close> skips the entry.\<close>

fun get_logs_loop :: "log_entry list \<Rightarrow> datetime option \<Rightarrow> datetime option \<Rightarrow> log_entry list" where
  "get_logs_loop [] start_t end_t = []"
| "get_logs_loop (entry # rest) start_t end_t =
     (if (case start_t of Some s \<Rightarrow> timestamp entry < s | None \<Rightarrow> False)
        then get_logs_loop rest start_t end_t
      else if (case end_t of Some e \<Rightarrow> timestamp entry > e | None \<Rightarrow> False)
        then get_logs_loop rest start_t end_t
      else entry # get_logs_loop rest start_t end_t)"

definition get_logs :: "log_entry list \<Rightarrow> datetime option \<Rightarrow> datetime option \<Rightarrow> log_entry list" where
  "get_logs logs start_t end_t =
     (if start_t = None \<and> end_t = None then logs else get_logs_loop logs start_t end_t)"

record incident =
  incident_timestamp :: datetime
  incident_endpoint :: string
  incident_method :: string
  incident_error :: "string option"

record report =
  report_date :: datetime
  start_time :: "datetime option"
  end_time :: "datetime option"
  total_checks :: int
  uptime_count :: int
  downtime_count :: int
  uptime_percentage :: rat
  average_response_time_ms :: "rat option"
  downtime_incidents :: "incident list"

text \<open>
  Truth value of \<open>get("response_time_ms")\<close> on an entry: \<open>None\<close> and \<open>0\<close> are both false.
\<close>

definition truthy_int :: "int option \<Rightarrow> bool" where
  "truthy_int v = (case v of None \<Rightarrow> False | Some n \<Rightarrow> n \<noteq> 0)"

text \<open>
  A Python \<open>float\<close> is an IEEE 754 double. Every operation used by the report builder
  returns the exact result rounded to the nearest double, a tie going to the double with
  the even significand. \<open>round_half_even\<close> is the integer closest to a rational, a tie
  going to the even one; \<open>binary_exponent a\<close> is the \<open>e\<close> with \<open>2^e \<le> a < 2^(e+1)\<close> for
  positive \<open>a\<close>, found from the bit lengths of numerator and denominator. A double has 53
  significant bits, and its spacing is never below \<open>2^-1074\<close> (the subnormal range). A result
  beyond the largest double, where Python raises \<open>OverflowError\<close>, has no counterpart here:
  the theorems on the numbers of a report bound the latencies instead.
\<close>

definition round_half_even :: "rat \<Rightarrow> int" where
  "round_half_even y =
     (let f = \<lfloor>y\<rfloor>; d = y - of_int f
      in if d < 1 / 2 then f else if d > 1 / 2 then f + 1 else if even f then f else f + 1)"

definition binary_exponent :: "rat \<Rightarrow> int" where
  "binary_exponent a =
     (let e = bitlen (fst (quotient_of a)) - bitlen (snd (quotient_of a))
      in if 2 powi e \<le> a then e else e - 1)"

definition round_to_double :: "rat \<Rightarrow> rat" where
  "round_to_double x =
     (if x = 0 then 0
      else (let a = \<bar>x\<bar>;
                q = max (binary_exponent a - 52) (- 1074)
            in sgn x * of_int (round_half_even (a / 2 powi q)) * 2 powi q))"

text \<open>
  \<open>a / b\<close> on two integers (true division, correctly rounded) and \<open>x * y\<close> on two floats
  (the integer \<open>100\<close> of the percentage converts to a float exactly); the divisor is never
  zero where the report builder divides.
\<close>

definition int_truediv :: "int \<Rightarrow> int \<Rightarrow> rat" where
  "int_truediv a b = round_to_double (of_int a / of_int b)"

definition float_mul :: "rat \<Rightarrow> rat \<Rightarrow> rat" where
  "float_mul x y = round_to_double (x * y)"

text \<open>
  \<open>round(x, 2)\<close> on a float: the exact value of \<open>x\<close> is rounded to the closest multiple of
  \<open>1/100\<close>, a tie going to the even choice, and that decimal is read back as a double.
\<close>

definition py_round2 :: "rat \<Rightarrow> rat" where
  "py_round2 x = round_to_double (of_int (round_half_even (x * 100)) / 100)"

definition incident_of :: "log_entry \<Rightarrow> incident" where
  "incident_of entry =
     \<lparr>incident_timestamp = timestamp entry, incident_endpoint = endpoint entry,
      incident_method = http_method entry, incident_error = error entry\<rparr>"

text \<open>
  The latency read from an entry of \<open>successful_pings\<close>; the filter there keeps only
  entries that have one.
\<close>

definition latency_of :: "log_entry \<Rightarrow> int" where
  "latency_of entry = (case response_time_ms entry of Some v \<Rightarrow> v | None \<Rightarrow> 0)"

definition generate_report ::
  "log_entry list \<Rightarrow> datetime option \<Rightarrow> datetime option \<Rightarrow> datetime \<Rightarrow> report option" where
  "generate_report all_logs start_t end_t now =
     (let logs = get_logs all_logs start_t end_t
      in if logs = [] then None
         else
           (let total = int (length logs);
                up = py_count (\<lambda>entry. status entry = ''UP'') logs;
                down = total - up;
                incidents = map incident_of (filter (\<lambda>entry. status entry = ''DOWN'') logs);
                successful_pings =
                  filter (\<lambda>entry. status entry = ''UP'' \<and> truthy_int (response_time_ms entry)) logs;
                avg_response_time =
                  (if successful_pings \<noteq> []
                   then Some (int_truediv (sum_list (map latency_of successful_pings))
                                          (int (length successful_pings)))
                   else None)
            in Some \<lparr>report_date = now,
                     start_time = start_t,
                     end_time = end_t,
                     total_checks = total,
                     uptime_count = up,
                     downtime_count = down,
                     uptime_percentage =
                       (if total > 0 then float_mul (int_truediv up total) 100 else 0),
                     average_response_time_ms =
                       (case avg_response_time of
                          Some a \<Rightarrow> if a \<noteq> 0 then Some (py_round2 a) else None
                        | None \<Rightarrow> None),
                     downtime_incidents = incidents\<rparr>))"


text \<open>
  The latencies the specification averages: those of the UP entries that carry a
  latency value, in order.
\<close>

fun recorded_latencies :: "log_entry list \<Rightarrow> int list" where
  "recorded_latencies [] = []"
| "recorded_latencies (entry # rest) =
     (case response_time_ms entry of
        Some v \<Rightarrow> if status entry = ''UP'' then v # recorded_latencies rest
                  else recorded_latencies rest
      | None \<Rightarrow> recorded_latencies rest)"

text \<open>Sample entries for concrete evaluation.\<close>

definition sample_entry :: "datetime \<Rightarrow> string \<Rightarrow> int option \<Rightarrow> log_entry" where
  "sample_entry t st rt =
     \<lparr>timestamp = t, endpoint = ''/ping'', http_method = ''GET'', status = st,
      response_time_ms = rt, status_code = None, error = None\<rparr>"

section \<open>reporting.py: the notifier\<close>

text \<open>
  An alert is the dictionary the manager builds; a key that a kind of alert does not
  carry is \<open>None\<close>. What reaches the outside is kept in two places: the backup files,
  by path, and the trace of actions in the order they happen (a file written, a call
  of \<open>send_report_email\<close> or \<open>send_alert_email\<close> with what it returned, a sleep).
  A backup file holds the JSON dump or the HTML rendering of its payload; the text of
  the rendering is not modelled, only whether rendering raises.
\<close>

record alert_report =
  alert_type :: string
  alert_timestamp :: datetime
  alert_service_name :: string
  service_url :: string
  failed_endpoints :: "probe_result list option"
  recovery_endpoints :: "probe_result list option"
  total_endpoints_checked :: "int option"
  failed_count :: "int option"
  message :: "string option"

datatype payload = ReportPayload report | AlertPayload alert_report

datatype ext = Json | Html

datatype path = ReportBackup int ext | AlertBackup string int ext

datatype content = JsonOf payload | HtmlOf payload | EmptyFile

datatype event = FileWrite path | ReportEmail bool | AlertEmail string bool | Sleep nat

datatype py_error = TypeError | UnboundLocalError

record effects =
  files :: "path \<rightharpoonup> content"
  trace :: "event list"

text \<open>
  What the file system does during one backup: whether \<open>os.makedirs\<close> succeeds and
  whether each \<open>open(..., "w")\<close> succeeds. A failure raises inside the \<open>try\<close> of the
  backup routine, which logs it and returns.
\<close>

record fs_env =
  makedirs_ok :: bool
  json_ok :: bool
  html_ok :: bool

record reporter =
  smtp_server :: "string option"
  smtp_username :: "string option"
  smtp_password :: "string option"
  sender_email :: "string option"
  recipient_emails :: "string list"
  reporter_service_name :: string

definition truthy_str :: "string option \<Rightarrow> bool" where
  "truthy_str v = (case v of None \<Rightarrow> False | Some s \<Rightarrow> s \<noteq> [])"

definition write_file :: "path \<Rightarrow> content \<Rightarrow> effects \<Rightarrow> effects" where
  "write_file p c w = w\<lparr>files := (files w)(p \<mapsto> c), trace := trace w @ [FileWrite p]\<rparr>"

definition record_event :: "event \<Rightarrow> effects \<Rightarrow> effects" where
  "record_event ev w = w\<lparr>trace := trace w @ [ev]\<rparr>"

text \<open>
  \<open>format_report_email\<close> parses the window bounds with \<open>fromisoformat\<close> whenever they are
  not the string \<open>N/A\<close>; a report whose bound is \<open>None\<close> makes it raise.
\<close>

definition format_report_email :: "report \<Rightarrow> py_error + content" where
  "format_report_email r =
     (if start_time r = None then Inl TypeError
      else if end_time r = None then Inl TypeError
      else Inr (HtmlOf (ReportPayload r)))"

text \<open>
  \<open>format_alert_email\<close> assigns \<open>email_body\<close> only for the types DOWNTIME and RECOVERY; for
  any other type the closing \<open>email_body += ...\<close> raises.
\<close>

definition format_alert_email :: "alert_report \<Rightarrow> py_error + content" where
  "format_alert_email a =
     (if alert_type a = ''DOWNTIME'' then Inr (HtmlOf (AlertPayload a))
      else if alert_type a = ''RECOVERY'' then Inr (HtmlOf (AlertPayload a))
      else Inl UnboundLocalError)"

text \<open>
  The backup routines. The HTML file is opened before the payload is rendered, so a
  rendering that raises leaves an empty file behind.
\<close>

definition save_report_backup :: "fs_env \<Rightarrow> datetime \<Rightarrow> report \<Rightarrow> effects \<Rightarrow> effects" where
  "save_report_backup fs now r w =
     (if \<not> makedirs_ok fs then w
      else if \<not> json_ok fs then w
      else
        (let w1 = write_file (ReportBackup (second_stamp now) Json) (JsonOf (ReportPayload r)) w
         in if \<not> html_ok fs then w1
            else (case format_report_email r of
                    Inl exn \<Rightarrow> write_file (ReportBackup (second_stamp now) Html) EmptyFile w1
                  | Inr doc \<Rightarrow> write_file (ReportBackup (second_stamp now) Html) doc w1)))"

definition save_alert_backup :: "fs_env \<Rightarrow> datetime \<Rightarrow> alert_report \<Rightarrow> effects \<Rightarrow> effects" where
  "save_alert_backup fs now a w =
     (if \<not> makedirs_ok fs then w
      else if \<not> json_ok fs then w
      else
        (let w1 = write_file (AlertBackup (lower (alert_type a)) (second_stamp now) Json)
                    (JsonOf (AlertPayload a)) w
         in if \<not> html_ok fs then w1
            else (case format_alert_email a of
                    Inl exn \<Rightarrow>
                      write_file (AlertBackup (lower (alert_type a)) (second_stamp now) Html)
                        EmptyFile w1
                  | Inr doc \<Rightarrow>
                      write_file (AlertBackup (lower (alert_type a)) (second_stamp now) Html)
                        doc w1)))"

text \<open>
  One call of \<open>send_report_email\<close>; \<open>smtp_ok\<close> says whether the SMTP exchange goes through
  without an exception.
\<close>

definition send_report_email :: "reporter \<Rightarrow> bool \<Rightarrow> report \<Rightarrow> bool" where
  "send_report_email rp smtp_ok r =
     (if \<not> truthy_str (smtp_server rp) \<or> \<not> truthy_str (smtp_username rp)
         \<or> \<not> truthy_str (smtp_password rp) then False
      else if \<not> truthy_str (sender_email rp) \<or> recipient_emails rp = [] then False
      else (case format_report_email r of Inl exn \<Rightarrow> False | Inr doc \<Rightarrow> smtp_ok))"

definition send_alert_email :: "reporter \<Rightarrow> bool \<Rightarrow> alert_report \<Rightarrow> bool" where
  "send_alert_email rp smtp_ok a =
     (if \<not> truthy_str (smtp_server rp) \<or> \<not> truthy_str (smtp_username rp)
         \<or> \<not> truthy_str (smtp_password rp) then False
      else if \<not> truthy_str (sender_email rp) \<or> recipient_emails rp = [] then False
      else (case format_alert_email a of Inl exn \<Rightarrow> False | Inr doc \<Rightarrow> smtp_ok))"

definition send_alert ::
  "reporter \<Rightarrow> fs_env \<Rightarrow> datetime \<Rightarrow> bool \<Rightarrow> alert_report \<Rightarrow> effects \<Rightarrow> bool \<times> effects" where
  "send_alert rp fs now smtp_ok a w =
     (let w1 = save_alert_backup fs now a w;
          ok = send_alert_email rp smtp_ok a
      in (ok, record_event (AlertEmail (alert_type a) ok) w1))"

text \<open>
  The retry loop of \<open>send_report\<close> over \<open>range(retry_count)\<close>; \<open>smtp k\<close> is the outcome of
  the SMTP exchange of attempt \<open>k\<close>. The delay is a number of seconds to sleep, never
  negative.
\<close>

fun send_report_loop ::
  "reporter \<Rightarrow> (nat \<Rightarrow> bool) \<Rightarrow> report \<Rightarrow> int \<Rightarrow> nat \<Rightarrow> nat list \<Rightarrow> effects \<Rightarrow> bool \<times> effects" where
  "send_report_loop rp smtp r retry_count retry_delay [] w = (False, w)"
| "send_report_loop rp smtp r retry_count retry_delay (attempt # rest) w =
     (if send_report_email rp (smtp attempt) r
      then (True, record_event (ReportEmail True) w)
      else
        (let w1 = record_event (ReportEmail False) w;
             w2 = (if int attempt < retry_count - 1 then record_event (Sleep retry_delay) w1 else w1)
         in send_report_loop rp smtp r retry_count retry_delay rest w2))"

definition send_report ::
  "reporter \<Rightarrow> fs_env \<Rightarrow> datetime \<Rightarrow> (nat \<Rightarrow> bool) \<Rightarrow> report \<Rightarrow> int \<Rightarrow> nat \<Rightarrow> effects
   \<Rightarrow> bool \<times> effects" where
  "send_report rp fs now smtp r retry_count retry_delay w =
     send_report_loop rp smtp r retry_count retry_delay [0..<nat retry_count]
       (save_report_backup fs now r w)"

section \<open>main.py: the scheduler\<close>

record manager =
  service_name :: string
  manager_base_url :: string
  reporting_schedule :: string
  reset_logs_after_send :: bool
  keep_alive :: keep_alive
  monitor_logs :: "log_entry list"
  reporter :: reporter
  service_down_notified :: bool
  fx :: effects

record config =
  cfg_service_name :: "string option"
  cfg_base_url :: "string option"
  cfg_schedule :: "string option"
  cfg_reset_logs_after_send :: "bool option"
  cfg_endpoints :: "string list option"
  cfg_http_methods :: "string list option"
  cfg_timeout_seconds :: "int option"

definition get_or :: "'a option \<Rightarrow> 'a \<Rightarrow> 'a" where
  "get_or v d = (case v of Some x \<Rightarrow> x | None \<Rightarrow> d)"

text \<open>
  \<open>__init__\<close>: the configuration with its defaults (the environment variables taken as
  unset), the logs loaded from the file and the reporter. The attribute
  \<open>_service_down_notified\<close> does not exist yet; the field says whether it exists.
\<close>

definition RenderServiceManager :: "config \<Rightarrow> log_entry list \<Rightarrow> reporter \<Rightarrow> manager" where
  "RenderServiceManager cfg loaded rp =
     \<lparr>service_name = get_or (cfg_service_name cfg) ''Render Service'',
      manager_base_url = get_or (cfg_base_url cfg) [],
      reporting_schedule = get_or (cfg_schedule cfg) ''00:00'',
      reset_logs_after_send = get_or (cfg_reset_logs_after_send cfg) True,
      keep_alive = RenderKeepAlive (get_or (cfg_base_url cfg) [])
                 (get_or (cfg_endpoints cfg) [''/ping'', ''/api/health''])
                 (get_or (cfg_http_methods cfg) [''GET'', ''HEAD''])
                 (get_or (cfg_timeout_seconds cfg) 10),
      monitor_logs = loaded,
      reporter = rp,
      service_down_notified = False,
      fx = \<lparr>files = Map.empty, trace = []\<rparr>\<rparr>"

text \<open>
  What one probe cycle meets: the answer to each request, the clock, the file system
  and the SMTP exchange of the alert, if one is sent.
\<close>

record cycle_env =
  cycle_http :: "verb \<Rightarrow> string \<Rightarrow> http_outcome"
  cycle_clock :: datetime
  cycle_fs :: fs_env
  cycle_smtp_ok :: bool

definition send_immediate_downtime_alert ::
  "manager \<Rightarrow> cycle_env \<Rightarrow> probe_result list \<Rightarrow> effects" where
  "send_immediate_downtime_alert mgr env results =
     (let failed = filter (\<lambda>r. status r = ''DOWN'') results;
          alert = \<lparr>alert_type = ''DOWNTIME'',
                   alert_timestamp = cycle_clock env,
                   alert_service_name = service_name mgr,
                   service_url = manager_base_url mgr,
                   failed_endpoints = Some failed,
                   recovery_endpoints = None,
                   total_endpoints_checked = Some (int (length results)),
                   failed_count = Some (int (length failed)),
                   message = None\<rparr>
      in snd (send_alert (reporter mgr) (cycle_fs env) (cycle_clock env) (cycle_smtp_ok env) alert (fx mgr)))"

definition send_service_recovery_alert ::
  "manager \<Rightarrow> cycle_env \<Rightarrow> probe_result list \<Rightarrow> effects" where
  "send_service_recovery_alert mgr env results =
     (let alert = \<lparr>alert_type = ''RECOVERY'',
                   alert_timestamp = cycle_clock env,
                   alert_service_name = service_name mgr,
                   service_url = manager_base_url mgr,
                   failed_endpoints = None,
                   recovery_endpoints = Some (filter (\<lambda>r. status r = ''UP'') results),
                   total_endpoints_checked = None,
                   failed_count = None,
                   message = Some ''Service has recovered and is responding normally''\<rparr>
      in snd (send_alert (reporter mgr) (cycle_fs env) (cycle_clock env) (cycle_smtp_ok env) alert (fx mgr)))"

definition log_results :: "log_entry list \<Rightarrow> datetime \<Rightarrow> probe_result list \<Rightarrow> log_entry list" where
  "log_results logs now results =
     foldl (\<lambda>acc result. log_ping acc now (endpoint result) (http_method result) (status result)
                           (response_time_ms result) (error result) (status_code result))
       logs results"

definition ping_service :: "manager \<Rightarrow> cycle_env \<Rightarrow> probe_result list \<times> manager" where
  "ping_service mgr env =
     (let results = ping_all_endpoints (keep_alive mgr) (cycle_http env) (cycle_clock env);
          healthy = py_any (map (\<lambda>result. status result = ''UP'') results);
          mgr1 =
            (if \<not> healthy \<and> \<not> service_down_notified mgr
               then mgr\<lparr>fx := send_immediate_downtime_alert mgr env results,
                        service_down_notified := True\<rparr>
             else if healthy \<and> service_down_notified mgr
               then mgr\<lparr>fx := send_service_recovery_alert mgr env results,
                        service_down_notified := False\<rparr>
             else mgr)
      in (results, mgr1\<lparr>monitor_logs := log_results (monitor_logs mgr1) (cycle_clock env) results\<rparr>))"

text \<open>The probe loop: one \<open>ping_service\<close> per cycle, in order.\<close>

fun run_keep_alive :: "manager \<Rightarrow> cycle_env list \<Rightarrow> manager" where
  "run_keep_alive mgr [] = mgr"
| "run_keep_alive mgr (env # envs) = run_keep_alive (snd (ping_service mgr env)) envs"




text \<open>Reading the trace.\<close>

fun alerts_emitted :: "event list \<Rightarrow> string list" where
  "alerts_emitted [] = []"
| "alerts_emitted (AlertEmail t ok # evs) = t # alerts_emitted evs"
| "alerts_emitted (ev # evs) = alerts_emitted evs"


fun delivery_attempts :: "event list \<Rightarrow> nat" where
  "delivery_attempts [] = 0"
| "delivery_attempts (ReportEmail ok # evs) = 1 + delivery_attempts evs"
| "delivery_attempts (AlertEmail t ok # evs) = 1 + delivery_attempts evs"
| "delivery_attempts (ev # evs) = delivery_attempts evs"

fun is_write :: "event \<Rightarrow> bool" where
  "is_write (FileWrite p) = True"
| "is_write ev = False"

definition observed_healthy :: "manager \<Rightarrow> cycle_env \<Rightarrow> bool" where
  "observed_healthy mgr env =
     is_service_healthy (ping_all_endpoints (keep_alive mgr) (cycle_http env) (cycle_clock env))"

text \<open>
  What the trace shows when every one of \<open>n\<close> delivery attempts fails: the attempts, with
  a sleep of \<open>d\<close> seconds between consecutive ones.
\<close>

fun failed_attempts :: "nat \<Rightarrow> nat \<Rightarrow> event list" where
  "failed_attempts 0 d = []"
| "failed_attempts (Suc 0) d = [ReportEmail False]"
| "failed_attempts (Suc (Suc n)) d = ReportEmail False # Sleep d # failed_attempts (Suc n) d"

text \<open>Sample values for concrete evaluation.\<close>

definition sample_report :: report where
  "sample_report =
     \<lparr>report_date = 0, start_time = Some (- 86400000000), end_time = Some 0, total_checks = 1,
      uptime_count = 1, downtime_count = 0, uptime_percentage = 100,
      average_response_time_ms = Some 50, downtime_incidents = []\<rparr>"

definition sample_reporter :: reporter where
  "sample_reporter =
     \<lparr>smtp_server = Some ''smtp.gmail.com'', smtp_username = Some ''monitor'',
      smtp_password = Some ''secret'', sender_email = Some ''monitor@example.com'',
      recipient_emails = [''admin@example.com''], reporter_service_name = ''Render Service''\<rparr>"

definition no_effects :: effects where
  "no_effects = \<lparr>files = Map.empty, trace = []\<rparr>"

definition fs_works :: fs_env where
  "fs_works = \<lparr>makedirs_ok = True, json_ok = True, html_ok = True\<rparr>"

definition sample_alert :: "string \<Rightarrow> alert_report" where
  "sample_alert t =
     \<lparr>alert_type = t, alert_timestamp = 0, alert_service_name = ''Render Service'',
      service_url = ''https://svc.example'', failed_endpoints = None, recovery_endpoints = None,
      total_endpoints_checked = None, failed_count = None, message = None\<rparr>"

text \<open>The alert types emitted so far, and the reports delivered so far.\<close>

definition alerts_of :: "manager \<Rightarrow> string list" where
  "alerts_of mgr = alerts_emitted (trace (fx mgr))"

definition default_config :: config where
  "default_config =
     \<lparr>cfg_service_name = None, cfg_base_url = Some ''https://svc.example'', cfg_schedule = None,
      cfg_reset_logs_after_send = None, cfg_endpoints = None, cfg_http_methods = None,
      cfg_timeout_seconds = None\<rparr>"

definition cycle_down :: "bool \<Rightarrow> cycle_env" where
  "cycle_down sent =
     \<lparr>cycle_http = (\<lambda>v u. Timeout), cycle_clock = 0, cycle_fs = fs_works, cycle_smtp_ok = sent\<rparr>"

definition cycle_up :: "bool \<Rightarrow> cycle_env" where
  "cycle_up sent =
     \<lparr>cycle_http = (\<lambda>v u. Response 200 50), cycle_clock = 0, cycle_fs = fs_works,
      cycle_smtp_ok = sent\<rparr>"




section \<open>Properties of the prober\<close>

lemma py_any_iff: "py_any bs \<longleftrightarrow> True \<in> set bs"
  by (induction bs) auto

lemma str_int_404: "str_int 404 = ''404''"
  by (simp add: str_int_def str_nat.simps digit_char_def)

text \<open>
  C2. For every HTTP status code \<open>c\<close> that the request returns, the result of
  \<open>ping_endpoint\<close> has status UP exactly when \<open>c < 400\<close>; when \<open>c \<ge> 400\<close> the status is
  DOWN and the error text is \<open>HTTP\<close> followed by the code, so it contains the code; and a
  timeout or any other exception yields status DOWN.
\<close>

theorem ping_endpoint_classification:
  "(http (request_verb m) (base_url ka @ ep) = Response c ms \<longrightarrow>
      ((status (ping_endpoint ka http now ep m) = ''UP'') = (c < 400)) \<and>
      (400 \<le> c \<longrightarrow>
         status (ping_endpoint ka http now ep m) = ''DOWN'' \<and>
         error (ping_endpoint ka http now ep m) = Some (''HTTP '' @ str_int c) \<and>
         sublist (str_int c) (the (error (ping_endpoint ka http now ep m))))) \<and>
   ((\<forall>c' ms'. http (request_verb m) (base_url ka @ ep) \<noteq> Response c' ms') \<longrightarrow>
      status (ping_endpoint ka http now ep m) = ''DOWN'')"
proof -
  have resp: "status (ping_endpoint ka http now ep m) = (if c < 400 then ''UP'' else ''DOWN'')"
    if "http (request_verb m) (base_url ka @ ep) = Response c ms"
    using that by (simp add: ping_endpoint_def Let_def)
  have err: "error (ping_endpoint ka http now ep m) = Some (''HTTP '' @ str_int c)"
    if "http (request_verb m) (base_url ka @ ep) = Response c ms" "400 \<le> c"
    using that by (simp add: ping_endpoint_def Let_def)
  have exc: "status (ping_endpoint ka http now ep m) = ''DOWN''"
    if "\<forall>c' ms'. http (request_verb m) (base_url ka @ ep) \<noteq> Response c' ms'"
    using that by (cases "http (request_verb m) (base_url ka @ ep)")
      (simp_all add: ping_endpoint_def Let_def)
  have sub: "sublist (str_int c) (''HTTP '' @ str_int c)"
    by (rule suffix_imp_sublist) (simp add: suffix_def)
  show ?thesis
    using resp err exc sub by auto
qed

theorem ping_endpoint_classification_witness:
  "status (ping_endpoint (RenderKeepAlive ''https://svc.example/'' [] [] 10)
             (\<lambda>v u. Response 404 37) 0 ''/ping'' ''GET'') = ''DOWN'' \<and>
   error (ping_endpoint (RenderKeepAlive ''https://svc.example/'' [] [] 10)
            (\<lambda>v u. Response 404 37) 0 ''/ping'' ''GET'') = Some ''HTTP 404'' \<and>
   status (ping_endpoint (RenderKeepAlive ''https://svc.example/'' [] [] 10)
             (\<lambda>v u. Timeout) 0 ''/ping'' ''GET'') = ''DOWN''"
  using ping_endpoint_classification
    [of "\<lambda>v u. Response 404 37" "''GET''" "RenderKeepAlive ''https://svc.example/'' [] [] 10"
        "''/ping''" 404 37 0]
    ping_endpoint_classification
    [of "\<lambda>v u. Timeout" "''GET''" "RenderKeepAlive ''https://svc.example/'' [] [] 10"
        "''/ping''" 0 0 0]
  by (simp add: str_int_404)

text \<open>
  C3. \<open>is_service_healthy\<close> is true exactly when some result has status UP, and it is
  false on the empty list.
\<close>

theorem is_service_healthy_iff:
  "(is_service_healthy results = (\<exists>result \<in> set results. status result = ''UP'')) \<and>
   is_service_healthy [] = False"
  by (auto simp: is_service_healthy_def py_any_iff)

section \<open>Properties of the log store and the report builder\<close>

lemma py_count_filter: "py_count p xs = int (length (filter p xs))"
  by (induction xs) auto



lemma generate_report_None: "generate_report logs s e now = None \<longleftrightarrow> get_logs logs s e = []"
  by (simp add: generate_report_def Let_def)

subsection \<open>Rounding to a double\<close>

lemma round_half_even_error: "\<bar>of_int (round_half_even y) - y\<bar> \<le> 1 / 2"
proof -
  define f where "f = \<lfloor>y\<rfloor>"
  have "of_int f \<le> y" "y < of_int f + 1" unfolding f_def by linarith+
  then show ?thesis
    unfolding round_half_even_def f_def [symmetric] Let_def by auto
qed

lemma round_half_even_nonneg: "0 \<le> y \<Longrightarrow> 0 \<le> round_half_even y"
  unfolding round_half_even_def Let_def by auto

lemma round_half_even_ge_floor: "\<lfloor>y\<rfloor> \<le> round_half_even y"
  unfolding round_half_even_def Let_def by auto

lemma quotient_of_pos:
  assumes "0 < a"
  shows "0 < fst (quotient_of a)" "0 < snd (quotient_of a)"
    "a = of_int (fst (quotient_of a)) / of_int (snd (quotient_of a))"
proof -
  obtain p q where pq: "quotient_of a = (p, q)" by (cases "quotient_of a")
  from quotient_of_denom_pos [OF pq] have q: "0 < q" .
  from quotient_of_div [OF pq] have a: "a = of_int p / of_int q" .
  with assms q have "0 < p" by (simp add: zero_less_divide_iff)
  with q a pq show "0 < fst (quotient_of a)" "0 < snd (quotient_of a)"
    "a = of_int (fst (quotient_of a)) / of_int (snd (quotient_of a))" by simp_all
qed

lemma binary_exponent_le:
  assumes "0 < a"
  shows "2 powi binary_exponent a \<le> a"
proof -
  define p where "p = fst (quotient_of a)"
  define q where "q = snd (quotient_of a)"
  define e where "e = bitlen p - bitlen q"
  have p: "0 < p" and q: "0 < q" and a: "a = of_int p / of_int q"
    using quotient_of_pos [OF assms] unfolding p_def q_def by simp_all
  have bp: "1 \<le> bitlen p" using p bitlen_eq_zero_iff [of p] bitlen_nonneg [of p] by linarith
  have bq: "1 \<le> bitlen q" using q bitlen_eq_zero_iff [of q] bitlen_nonneg [of q] by linarith
  have lo: "(2::int) ^ nat (bitlen p - 1) \<le> p" using bitlen_bounds [OF p] by simp
  have hi: "q < (2::int) ^ nat (bitlen q)" using bitlen_bounds [OF q] by simp
  have lo': "(2::rat) ^ nat (bitlen p - 1) \<le> of_int p"
    using lo by (metis of_int_le_iff of_int_numeral of_int_power)
  have hi': "of_int q \<le> (2::rat) ^ nat (bitlen q)"
    using hi by (metis less_imp_le of_int_le_iff of_int_numeral of_int_power)
  have "(2::rat) powi (e - 1) = 2 powi (bitlen p - 1) / 2 powi (bitlen q)"
    unfolding e_def by (simp add: power_int_diff)
  also have "\<dots> = 2 ^ nat (bitlen p - 1) / 2 ^ nat (bitlen q)"
    using bp bq by (simp add: power_int_def)
  also have "\<dots> \<le> of_int p / of_int q"
    using lo' hi' p q by (intro frac_le) simp_all
  finally have low: "(2::rat) powi (e - 1) \<le> a" using a by simp
  show ?thesis
    unfolding binary_exponent_def p_def [symmetric] q_def [symmetric] e_def [symmetric] Let_def
    using low by simp
qed

lemma round_to_double_nonneg: "0 \<le> x \<Longrightarrow> 0 \<le> round_to_double x"
  unfolding round_to_double_def Let_def
  by (auto intro!: mult_nonneg_nonneg round_half_even_nonneg simp: sgn_if)

text \<open>The rounding error is at most half the spacing of the doubles around the value.\<close>

lemma round_to_double_quantum:
  assumes "0 < x"
  shows "\<bar>round_to_double x - x\<bar> \<le> 2 powi (max (binary_exponent x - 53) (- 1075))"
proof -
  define q where "q = max (binary_exponent x - 52) (- 1074)"
  define m where "m = round_half_even (x / 2 powi q)"
  have pq: "(0::rat) < 2 powi q" by simp
  have fl: "round_to_double x = of_int m * 2 powi q"
    using assms unfolding round_to_double_def m_def q_def Let_def by (simp add: sgn_if)
  have "\<bar>of_int m - x / 2 powi q\<bar> \<le> 1 / 2"
    unfolding m_def by (rule round_half_even_error)
  then have "\<bar>of_int m - x / 2 powi q\<bar> * 2 powi q \<le> 1 / 2 * 2 powi q"
    using pq by (intro mult_right_mono) simp_all
  moreover have "\<bar>of_int m - x / 2 powi q\<bar> * 2 powi q = \<bar>of_int m * 2 powi q - x\<bar>"
  proof -
    have "\<bar>of_int m - x / 2 powi q\<bar> * 2 powi q = \<bar>(of_int m - x / 2 powi q) * 2 powi q\<bar>"
      using pq by (simp add: abs_mult)
    also have "(of_int m - x / 2 powi q) * 2 powi q = of_int m * 2 powi q - x"
      using pq by (simp add: field_simps)
    finally show ?thesis .
  qed
  moreover have "1 / 2 * (2::rat) powi q = 2 powi (q - 1)"
    by (simp add: power_int_diff)
  moreover have "q - 1 = max (binary_exponent x - 53) (- 1075)"
    unfolding q_def by simp
  ultimately show ?thesis using fl by simp
qed

lemma round_to_double_abs_error:
  assumes "0 < x" and "x < 2 powi k" and "- 1021 \<le> k"
  shows "\<bar>round_to_double x - x\<bar> \<le> 2 powi (k - 54)"
proof -
  have "(2::rat) powi binary_exponent x < 2 powi k"
    using binary_exponent_le [OF assms(1)] assms(2) by simp
  moreover have "(2::rat) powi k \<le> 2 powi binary_exponent x" if "k \<le> binary_exponent x"
    using that by (intro power_int_increasing) simp_all
  ultimately have "binary_exponent x < k"
    by (cases "k \<le> binary_exponent x") simp_all
  with assms(3) have "max (binary_exponent x - 53) (- 1075) \<le> k - 54" by simp
  then have "(2::rat) powi (max (binary_exponent x - 53) (- 1075)) \<le> 2 powi (k - 54)"
    by (intro power_int_increasing) simp_all
  with round_to_double_quantum [OF assms(1)] show ?thesis by simp
qed

lemma round_to_double_rel_error:
  assumes "1 \<le> x"
  shows "\<bar>round_to_double x - x\<bar> \<le> x / 2 ^ 53"
proof -
  have x: "0 < x" using assms by simp
  have a: "(2::rat) powi (binary_exponent x - 53) \<le> x / 2 ^ 53"
    using binary_exponent_le [OF x] by (simp add: power_int_diff divide_right_mono)
  have "(2::rat) powi (- 1075) \<le> 2 powi (- 53)"
    by (intro power_int_increasing) simp_all
  also have "\<dots> = 1 / 2 ^ 53" by (simp add: power_int_minus_divide)
  also have "\<dots> \<le> x / 2 ^ 53" using assms by (simp add: divide_right_mono)
  finally have b: "(2::rat) powi (- 1075) \<le> x / 2 ^ 53" .
  have "(2::rat) powi (max (binary_exponent x - 53) (- 1075)) \<le> x / 2 ^ 53"
    using a b by (simp add: max_def)
  with round_to_double_quantum [OF x] show ?thesis by simp
qed

text \<open>
  \<open>(u / n) * 100\<close> on floats, against the exact \<open>100 * u / n\<close>: one rounding of a
  quotient in \<open>[0, 1]\<close> and one of a product below \<open>128\<close>.
\<close>

lemma percentage_error:
  assumes "0 \<le> u" and "u \<le> n" and "0 < n"
  shows "\<bar>float_mul (int_truediv u n) 100 - 100 * of_int u / of_int n\<bar> \<le> 1 / 2 ^ 45"
proof -
  define x :: rat where "x = of_int u / of_int n"
  define f where "f = round_to_double x"
  define y where "y = f * 100"
  have x0: "0 \<le> x" and x1: "x \<le> 1" using assms unfolding x_def by simp_all
  have f0: "0 \<le> f" unfolding f_def using x0 by (rule round_to_double_nonneg)
  have c53: "(1::rat) / 2 ^ 53 = 1 / 9007199254740992" by simp
  have c47: "(1::rat) / 2 ^ 47 = 1 / 140737488355328" by simp
  have c45: "(1::rat) / 2 ^ 45 = 1 / 35184372088832" by simp
  have ef: "\<bar>f - x\<bar> \<le> 1 / 2 ^ 53"
  proof (cases "x = 0")
    case True
    then show ?thesis unfolding f_def by (simp add: round_to_double_def)
  next
    case False
    with x0 have "0 < x" by simp
    moreover have "x < 2 powi 1" using x1 by simp
    ultimately have "\<bar>round_to_double x - x\<bar> \<le> 2 powi (1 - 54)"
      by (rule round_to_double_abs_error) simp
    then show ?thesis unfolding f_def by (simp add: power_int_minus_divide)
  qed
  have y0: "0 \<le> y" unfolding y_def using f0 by simp
  have ey: "\<bar>round_to_double y - y\<bar> \<le> 1 / 2 ^ 47"
  proof (cases "y = 0")
    case True
    then show ?thesis by (simp add: round_to_double_def)
  next
    case False
    with y0 have "0 < y" by simp
    moreover have "(2::rat) powi 7 = 128" by simp
    then have "y < 2 powi 7" unfolding y_def using ef x1 c53 by linarith
    ultimately have "\<bar>round_to_double y - y\<bar> \<le> 2 powi (7 - 54)"
      by (rule round_to_double_abs_error) simp
    then show ?thesis by (simp add: power_int_minus_divide)
  qed
  have "float_mul (int_truediv u n) 100 = round_to_double y"
    unfolding float_mul_def int_truediv_def y_def f_def x_def ..
  moreover have "100 * of_int u / of_int n = 100 * x" unfolding x_def by simp
  moreover have "\<bar>round_to_double y - 100 * x\<bar> \<le> 1 / 2 ^ 45"
    using ef ey c53 c47 c45 unfolding y_def by linarith
  ultimately show ?thesis by simp
qed

text \<open>
  \<open>round(m, 2)\<close> on the float of a mean \<open>m \<ge> 1\<close>: three roundings, to a double, to a
  hundredth and to a double again.
\<close>

lemma rounded_mean_error:
  assumes "1 \<le> m"
  shows "round_to_double m \<noteq> 0"
    and "\<bar>py_round2 (round_to_double m) - m\<bar> \<le> 1 / 200 + m / 2 ^ 51"
proof -
  define f where "f = round_to_double m"
  define k where "k = round_half_even (f * 100)"
  define d :: rat where "d = of_int k / 100"
  have cm: "m / 2 ^ 53 = m * (1 / 9007199254740992)" by simp
  have cd: "d / 2 ^ 53 = d * (1 / 9007199254740992)" by simp
  have c51: "m / 2 ^ 51 = m * (1 / 2251799813685248)" by simp
  have ef: "\<bar>f - m\<bar> \<le> m / 2 ^ 53"
    unfolding f_def using assms by (rule round_to_double_rel_error)
  have f1: "99 / 100 \<le> f" using ef assms cm by linarith
  then show "round_to_double m \<noteq> 0" unfolding f_def by simp
  have "\<bar>of_int k - f * 100\<bar> \<le> 1 / 2"
    unfolding k_def by (rule round_half_even_error)
  then have ed: "\<bar>d - f\<bar> \<le> 1 / 200" unfolding d_def by linarith
  have k99: "99 \<le> k"
  proof -
    have "99 \<le> f * 100" using f1 by simp
    then have "99 \<le> \<lfloor>f * 100\<rfloor>" by (simp add: le_floor_iff)
    with round_half_even_ge_floor [of "f * 100"] show ?thesis unfolding k_def by linarith
  qed
  have er: "\<bar>round_to_double d - d\<bar> \<le> d / 2 ^ 53"
  proof (cases "100 \<le> k")
    case True
    then have "1 \<le> d" unfolding d_def by simp
    then show ?thesis by (rule round_to_double_rel_error)
  next
    case False
    with k99 have "k = 99" by simp
    then have d: "d = 99 / 100" unfolding d_def by simp
    have "round_to_double (99 / 100) = 4458563631096791 / 4503599627370496" by code_simp
    then show ?thesis unfolding d by simp
  qed
  have "py_round2 (round_to_double m) = round_to_double d"
    unfolding py_round2_def d_def k_def f_def ..
  moreover have "\<bar>round_to_double d - m\<bar> \<le> 1 / 200 + m / 2 ^ 51"
    using ef ed er assms cm cd c51 by linarith
  ultimately show "\<bar>py_round2 (round_to_double m) - m\<bar> \<le> 1 / 200 + m / 2 ^ 51" by simp
qed

subsection \<open>The report\<close>

lemma generate_report_fields:
  assumes "generate_report logs s e now = Some r"
  shows "total_checks r = int (length (get_logs logs s e))"
    and "uptime_count r = int (length (filter (\<lambda>entry. status entry = ''UP'') (get_logs logs s e)))"
    and "downtime_count r = total_checks r - uptime_count r"
    and "uptime_percentage r = float_mul (int_truediv (uptime_count r) (total_checks r)) 100"
    and "get_logs logs s e \<noteq> []"
  using assms by (auto simp: generate_report_def Let_def py_count_filter split: if_splits)

text \<open>
  C4, as amended. When the window query yields \<open>N\<close> entries of which \<open>U\<close> have status UP
  (the latencies of the UP entries within the range of a double), \<open>generate_report\<close> returns
  no report if \<open>N = 0\<close>, and otherwise a report with \<open>total_checks = N\<close>,
  \<open>uptime_count = U\<close>, \<open>downtime_count = N - U\<close> (so the two counts add up to the total) and
  \<open>uptime_percentage\<close> the float \<open>(U / N) * 100\<close>, which lies within \<open>2^-45\<close> of
  \<open>100 * U / N\<close>.
\<close>

theorem generate_report_aggregates:
  assumes "length (get_logs logs s e) = N"
      and "length (filter (\<lambda>entry. status entry = ''UP'') (get_logs logs s e)) = U"
      and "\<forall>entry \<in> set (get_logs logs s e).
             status entry = ''UP'' \<longrightarrow> (\<forall>v. response_time_ms entry = Some v \<longrightarrow> \<bar>v\<bar> < 2 ^ 1023)"
  shows "if N = 0 then generate_report logs s e now = None
         else (\<exists>r. generate_report logs s e now = Some r \<and>
                 total_checks r = int N \<and> uptime_count r = int U \<and>
                 downtime_count r = int N - int U \<and>
                 uptime_count r + downtime_count r = total_checks r \<and>
                 uptime_percentage r = float_mul (int_truediv (int U) (int N)) 100 \<and>
                 \<bar>uptime_percentage r - 100 * of_nat U / of_nat N\<bar> \<le> 1 / 2 ^ 45)"
proof (cases "N = 0")
  case True
  with assms(1) show ?thesis by (simp add: generate_report_None)
next
  case False
  with assms(1) have "get_logs logs s e \<noteq> []" by auto
  then obtain r where r: "generate_report logs s e now = Some r"
    using generate_report_None [of logs s e now] by (cases "generate_report logs s e now") auto
  from generate_report_fields [OF r] assms
  have f: "total_checks r = int N" "uptime_count r = int U" "downtime_count r = int N - int U"
    "uptime_percentage r = float_mul (int_truediv (int U) (int N)) 100"
    by simp_all
  have "U \<le> N" using assms(1,2) length_filter_le [of _ "get_logs logs s e"] by auto
  with False have "\<bar>float_mul (int_truediv (int U) (int N)) 100
      - 100 * of_int (int U) / of_int (int N)\<bar> \<le> 1 / 2 ^ 45"
    by (intro percentage_error) simp_all
  then have b: "\<bar>uptime_percentage r - 100 * of_nat U / of_nat N\<bar> \<le> 1 / 2 ^ 45"
    using f(4) by simp
  from r f b have "generate_report logs s e now = Some r \<and>
                 total_checks r = int N \<and> uptime_count r = int U \<and>
                 downtime_count r = int N - int U \<and>
                 uptime_count r + downtime_count r = total_checks r \<and>
                 uptime_percentage r = float_mul (int_truediv (int U) (int N)) 100 \<and>
                 \<bar>uptime_percentage r - 100 * of_nat U / of_nat N\<bar> \<le> 1 / 2 ^ 45"
    by simp
  then have "\<exists>r. generate_report logs s e now = Some r \<and>
                 total_checks r = int N \<and> uptime_count r = int U \<and>
                 downtime_count r = int N - int U \<and>
                 uptime_count r + downtime_count r = total_checks r \<and>
                 uptime_percentage r = float_mul (int_truediv (int U) (int N)) 100 \<and>
                 \<bar>uptime_percentage r - 100 * of_nat U / of_nat N\<bar> \<le> 1 / 2 ^ 45" ..
  with False show ?thesis by (simp only: if_False)
qed

theorem generate_report_aggregates_witness:
  "\<exists>r. generate_report [sample_entry 1 ''UP'' (Some 120), sample_entry 2 ''DOWN'' None,
                         sample_entry 3 ''UP'' (Some 80)] None None 0 = Some r \<and>
       total_checks r = 3 \<and> uptime_count r = 2 \<and> downtime_count r = 1 \<and>
       uptime_percentage r = 2345624805922133 / 35184372088832 \<and>
       \<bar>uptime_percentage r - 200 / 3\<bar> \<le> 1 / 2 ^ 45"
proof -
  let ?L = "[sample_entry 1 ''UP'' (Some 120), sample_entry 2 ''DOWN'' None,
             sample_entry 3 ''UP'' (Some 80)]"
  have n: "length (get_logs ?L None None) = 3"
    by (simp add: get_logs_def)
  have u: "length (filter (\<lambda>entry. status entry = ''UP'') (get_logs ?L None None)) = 2"
    by (simp add: get_logs_def sample_entry_def)
  have b: "\<forall>entry \<in> set (get_logs ?L None None).
      status entry = ''UP'' \<longrightarrow> (\<forall>v. response_time_ms entry = Some v \<longrightarrow> \<bar>v\<bar> < 2 ^ 1023)"
    by (simp add: get_logs_def sample_entry_def)
  have v: "float_mul (int_truediv 2 3) 100 = 2345624805922133 / 35184372088832"
    by code_simp
  from generate_report_aggregates [OF n u b, of 0]
  obtain r where "generate_report ?L None None 0 = Some r" "total_checks r = 3"
    "uptime_count r = 2" "downtime_count r = 1"
    "uptime_percentage r = float_mul (int_truediv 2 3) 100"
    "\<bar>uptime_percentage r - 200 / 3\<bar> \<le> 1 / 2 ^ 45"
    by auto
  then show ?thesis unfolding v by blast
qed

text \<open>
  The claim as written fails: with 7 UP entries out of 25 the exact percentage is 28,
  and the report holds the float \<open>(7 / 25) * 100\<close>, which is \<open>28 + 2^-48\<close> (printed
  \<open>28.000000000000004\<close>).
\<close>

theorem uptime_percentage_counterexample:
  "length (get_logs (replicate 7 (sample_entry 1 ''UP'' (Some 120)) @
                     replicate 18 (sample_entry 2 ''DOWN'' None)) None None) = 25 \<and>
   length (filter (\<lambda>entry. status entry = ''UP'')
             (get_logs (replicate 7 (sample_entry 1 ''UP'' (Some 120)) @
                        replicate 18 (sample_entry 2 ''DOWN'' None)) None None)) = 7 \<and>
   map_option uptime_percentage
     (generate_report (replicate 7 (sample_entry 1 ''UP'' (Some 120)) @
                       replicate 18 (sample_entry 2 ''DOWN'' None)) None None 0)
     = Some (28 + 1 / 2 ^ 48) \<and>
   (28 + 1 / 2 ^ 48 :: rat) \<noteq> 100 * 7 / 25"
  by code_simp

lemma successful_pings_latencies:
  assumes "\<forall>entry \<in> set xs. status entry = ''UP'' \<longrightarrow>
             (\<forall>v. response_time_ms entry = Some v \<longrightarrow> 0 < v \<and> v < 2 ^ 1023)"
  shows "map latency_of (filter (\<lambda>entry. status entry = ''UP'' \<and> truthy_int (response_time_ms entry)) xs)
           = recorded_latencies xs"
  using assms
proof (induction xs)
  case Nil
  show ?case by simp
next
  case (Cons x xs)
  then have ih: "map latency_of (filter (\<lambda>entry. status entry = ''UP'' \<and> truthy_int (response_time_ms entry)) xs)
           = recorded_latencies xs"
    by simp
  show ?case
  proof (cases "response_time_ms x")
    case None
    then show ?thesis using ih by (simp add: truthy_int_def)
  next
    case (Some v)
    show ?thesis
    proof (cases "status x = ''UP''")
      case True
      with Some Cons.prems have "0 < v" by simp
      with Some have t: "truthy_int (response_time_ms x)" by (simp add: truthy_int_def)
      from Some have l: "latency_of x = v" by (simp add: latency_of_def)
      from True Some ih t l show ?thesis by simp
    next
      case False
      with Some ih show ?thesis by simp
    qed
  qed
qed

lemma recorded_latencies_pos:
  assumes "\<forall>entry \<in> set xs. status entry = ''UP'' \<longrightarrow>
             (\<forall>v. response_time_ms entry = Some v \<longrightarrow> 0 < v \<and> v < 2 ^ 1023)"
  shows "\<forall>v \<in> set (recorded_latencies xs). 0 < v"
  using assms by (induction xs) (auto split: option.splits)

lemma sum_list_ge_length: "\<forall>v \<in> set xs. (0::int) < v \<Longrightarrow> int (length xs) \<le> sum_list xs"
  by (induction xs) auto

lemma mean_ge_one:
  assumes "xs \<noteq> []" and "\<forall>v \<in> set xs. (0::int) < v"
  shows "(1::rat) \<le> of_int (sum_list xs) / of_int (int (length xs))"
proof -
  have "(of_int (int (length xs)) :: rat) \<le> of_int (sum_list xs)"
    using sum_list_ge_length [OF assms(2)] by (simp only: of_int_le_iff)
  moreover have "(0::rat) < of_int (int (length xs))" using assms(1) by simp
  ultimately show ?thesis by (simp add: le_divide_eq)
qed

lemma generate_report_average:
  assumes "generate_report logs s e now = Some r"
  shows "average_response_time_ms r =
      (case (if filter (\<lambda>entry. status entry = ''UP'' \<and> truthy_int (response_time_ms entry)) (get_logs logs s e) \<noteq> [] then Some (int_truediv (sum_list (map latency_of (filter (\<lambda>entry. status entry = ''UP'' \<and> truthy_int (response_time_ms entry)) (get_logs logs s e)))) (int (length (filter (\<lambda>entry. status entry = ''UP'' \<and> truthy_int (response_time_ms entry)) (get_logs logs s e)))))
             else None) of
         Some a \<Rightarrow> if a \<noteq> (0::rat) then Some (py_round2 a) else None | None \<Rightarrow> None)"
    using assms(1) by (auto simp: generate_report_def Let_def split: if_splits)

lemma average_cases:
  fixes a :: rat
  shows "sp = [] \<Longrightarrow> (case (if sp \<noteq> [] then Some a else None) of
         Some a \<Rightarrow> if a \<noteq> 0 then Some (py_round2 a) else None | None \<Rightarrow> None) = None"
    and "sp \<noteq> [] \<Longrightarrow> a \<noteq> 0 \<Longrightarrow> (case (if sp \<noteq> [] then Some a else None) of
         Some a \<Rightarrow> if a \<noteq> 0 then Some (py_round2 a) else None | None \<Rightarrow> None) = Some (py_round2 a)"
  by simp_all

text \<open>
  C5, as amended. On a window in which every latency recorded for an UP entry is
  positive (and within the range of a double), \<open>average_response_time_ms\<close> is the mean of
  the latencies of the UP entries that carry one, computed as a float and rounded to two
  decimal places by \<open>round\<close>, so that it lies within \<open>0.005 + mean * 2^-51\<close> of the exact
  mean; entries that are not UP and entries without a latency contribute nothing; and
  when no UP entry carries a latency the field is absent.
\<close>

theorem average_response_time_rounded_mean:
  assumes "generate_report logs s e now = Some r"
      and "\<forall>entry \<in> set (get_logs logs s e).
             status entry = ''UP'' \<longrightarrow>
               (\<forall>v. response_time_ms entry = Some v \<longrightarrow> 0 < v \<and> v < 2 ^ 1023)"
  shows "average_response_time_ms r =
           (if recorded_latencies (get_logs logs s e) = [] then None
            else Some (py_round2 (int_truediv (sum_list (recorded_latencies (get_logs logs s e)))
                                   (int (length (recorded_latencies (get_logs logs s e))))))) \<and>
         (recorded_latencies (get_logs logs s e) \<noteq> [] \<longrightarrow>
            (\<exists>a. average_response_time_ms r = Some a \<and>
                 \<bar>a - of_int (sum_list (recorded_latencies (get_logs logs s e)))
                        / of_int (int (length (recorded_latencies (get_logs logs s e))))\<bar>
                   \<le> 1 / 200 + (of_int (sum_list (recorded_latencies (get_logs logs s e)))
                                  / of_int (int (length (recorded_latencies (get_logs logs s e))))) / 2 ^ 51))"
proof -
  define win where "win = get_logs logs s e"
  define sp where "sp = filter (\<lambda>entry. status entry = ''UP'' \<and> truthy_int (response_time_ms entry)) win"
  define lat where "lat = recorded_latencies win"
  define mean :: rat where "mean = of_int (sum_list lat) / of_int (int (length lat))"
  have sp: "map latency_of sp = lat"
    unfolding sp_def lat_def win_def by (rule successful_pings_latencies [OF assms(2)])
  have len: "length sp = length lat"
    using arg_cong [OF sp, of length] by simp
  have td: "int_truediv (sum_list lat) (int (length lat)) = round_to_double mean"
    unfolding int_truediv_def mean_def ..
  have avg: "average_response_time_ms r =
      (case (if sp \<noteq> [] then Some (round_to_double mean) else None) of
         Some a \<Rightarrow> if a \<noteq> (0::rat) then Some (py_round2 a) else None | None \<Rightarrow> None)"
    using generate_report_average [OF assms(1)] unfolding sp_def [symmetric] win_def [symmetric]
    by (simp only: sp len td)
  have none: "average_response_time_ms r = None" if "lat = []"
  proof -
    from that len have "sp = []" by simp
    with avg show ?thesis by simp
  qed
  have some: "average_response_time_ms r = Some (py_round2 (round_to_double mean)) \<and>
              \<bar>py_round2 (round_to_double mean) - mean\<bar> \<le> 1 / 200 + mean / 2 ^ 51"
    if "lat \<noteq> []"
  proof -
    from that len have ne: "sp \<noteq> []" by auto
    have pos: "\<forall>v \<in> set lat. 0 < v"
      unfolding lat_def win_def by (rule recorded_latencies_pos [OF assms(2)])
    have m1: "1 \<le> mean" unfolding mean_def using that pos by (rule mean_ge_one)
    have nz: "round_to_double mean \<noteq> 0" using m1 by (rule rounded_mean_error(1))
    have "average_response_time_ms r = Some (py_round2 (round_to_double mean))"
      using avg by (simp only: average_cases(2) [OF ne nz])
    with rounded_mean_error(2) [OF m1] show ?thesis by simp
  qed
  have goal: "average_response_time_ms r =
           (if lat = [] then None
            else Some (py_round2 (int_truediv (sum_list lat) (int (length lat))))) \<and>
         (lat \<noteq> [] \<longrightarrow>
            (\<exists>a. average_response_time_ms r = Some a \<and> \<bar>a - mean\<bar> \<le> 1 / 200 + mean / 2 ^ 51))"
    using none some unfolding td by (cases "lat = []") simp_all
  show ?thesis using goal unfolding mean_def lat_def win_def .
qed

theorem average_response_time_rounded_mean_witness:
  "average_response_time_ms
     (the (generate_report [sample_entry 1 ''UP'' (Some 1), sample_entry 2 ''UP'' (Some 1),
                            sample_entry 3 ''DOWN'' (Some 700), sample_entry 4 ''UP'' None,
                            sample_entry 5 ''UP'' (Some 2)] None None 0))
     = Some (748723438050345 / 562949953421312) \<and>
   \<bar>748723438050345 / 562949953421312 - 4 / 3\<bar> \<le> (1 / 200 + (4 / 3) / 2 ^ 51 :: rat)"
proof -
  let ?L = "[sample_entry 1 ''UP'' (Some 1), sample_entry 2 ''UP'' (Some 1),
             sample_entry 3 ''DOWN'' (Some 700), sample_entry 4 ''UP'' None,
             sample_entry 5 ''UP'' (Some 2)]"
  have "get_logs ?L None None \<noteq> []" by (simp add: get_logs_def)
  then obtain r where r: "generate_report ?L None None 0 = Some r"
    using generate_report_None [of ?L None None 0] by (cases "generate_report ?L None None 0") auto
  have pos: "\<forall>entry \<in> set (get_logs ?L None None).
      status entry = ''UP'' \<longrightarrow> (\<forall>v. response_time_ms entry = Some v \<longrightarrow> 0 < v \<and> v < 2 ^ 1023)"
    by (simp add: get_logs_def sample_entry_def)
  have lat: "recorded_latencies (get_logs ?L None None) = [1, 1, 2]"
    by (simp add: get_logs_def sample_entry_def)
  have rnd: "py_round2 (int_truediv 4 3) = 748723438050345 / 562949953421312" by code_simp
  from average_response_time_rounded_mean [OF r pos]
  have "average_response_time_ms r = Some (748723438050345 / 562949953421312) \<and>
        \<bar>748723438050345 / 562949953421312 - 4 / 3\<bar> \<le> (1 / 200 + (4 / 3) / 2 ^ 51 :: rat)"
    by (simp add: lat rnd)
  with r show ?thesis by simp
qed

text \<open>
  The claim as written fails: eight UP entries with latencies 1, 1, 1, 1, 1, 1, 1 and 2
  have mean \<open>9/8\<close>, which is a float (\<open>1.125\<close>), and the report holds the float \<open>1.12\<close>.
\<close>

theorem average_response_time_counterexample:
  "average_response_time_ms
     (the (generate_report [sample_entry 1 ''UP'' (Some 1), sample_entry 2 ''UP'' (Some 1),
                            sample_entry 3 ''UP'' (Some 1), sample_entry 4 ''UP'' (Some 1),
                            sample_entry 5 ''UP'' (Some 1), sample_entry 6 ''UP'' (Some 1),
                            sample_entry 7 ''UP'' (Some 1), sample_entry 8 ''UP'' (Some 2)]
             None None 0))
     = Some (1261007895663739 / 1125899906842624) \<and>
   recorded_latencies [sample_entry 1 ''UP'' (Some 1), sample_entry 2 ''UP'' (Some 1),
                       sample_entry 3 ''UP'' (Some 1), sample_entry 4 ''UP'' (Some 1),
                       sample_entry 5 ''UP'' (Some 1), sample_entry 6 ''UP'' (Some 1),
                       sample_entry 7 ''UP'' (Some 1), sample_entry 8 ''UP'' (Some 2)]
     = [1, 1, 1, 1, 1, 1, 1, 2] \<and>
   (of_int (sum_list [1, 1, 1, 1, 1, 1, 1, 2]) / of_int 8 :: rat) = 9 / 8 \<and>
   round_to_double (9 / 8) = 9 / 8 \<and>
   round_to_double (112 / 100) = 1261007895663739 / 1125899906842624 \<and>
   (1261007895663739 / 1125899906842624 :: rat) \<noteq> 9 / 8"
  by code_simp

text \<open>
  The latency is tested by its truth value, so an UP entry with latency 0 is left out
  of the mean.
\<close>

lemma zero_latency_left_out:
  "average_response_time_ms
     (the (generate_report [sample_entry 1 ''UP'' (Some 0), sample_entry 2 ''UP'' (Some 100)]
             None None 0)) = Some 100"
  by code_simp




section \<open>Properties of the notifier\<close>

lemma failed_attempts_unfold:
  "0 < m \<Longrightarrow> failed_attempts m d =
     ReportEmail False # (if 1 < m then Sleep d # failed_attempts (m - 1) d else [])"
  by (induction m d rule: failed_attempts.induct) auto

lemma delivery_attempts_failed: "delivery_attempts (failed_attempts m d) = m"
  by (induction m d rule: failed_attempts.induct) auto

lemma send_report_loop_all_fail:
  assumes "\<forall>k < n. \<not> send_report_email rp (smtp k) r" and "n = nat N" and "i \<le> n"
  shows "send_report_loop rp smtp r N d [i..<n] w =
           (False, w\<lparr>trace := trace w @ failed_attempts (n - i) d\<rparr>)"
  using assms(3)
proof (induction "n - i" arbitrary: i w)
  case 0
  then show ?case by simp
next
  case (Suc m)
  then have lt: "i < n" by linarith
  then have upt: "[i..<n] = i # [Suc i..<n]" by (rule upt_conv_Cons)
  have fail: "\<not> send_report_email rp (smtp i) r" using assms(1) lt by blast
  have cond: "(int i < N - 1) = (1 < n - i)" using lt assms(2) by auto
  have m: "m = n - Suc i" using Suc.hyps(2) by linarith
  have le: "Suc i \<le> n" using lt by simp
  have fa: "failed_attempts (n - i) d =
      ReportEmail False # (if 1 < n - i then Sleep d # failed_attempts (n - Suc i) d else [])"
    using failed_attempts_unfold [of "n - i" d] lt by simp
  have nil: "\<not> 1 < n - i \<Longrightarrow> failed_attempts (n - Suc i) d = []"
    using lt by (simp add: not_less)
  show ?case
    using Suc.hyps(1) [OF m le] fail
    by (auto simp: upt cond fa nil record_event_def Let_def)
qed

lemma send_report_loop_result:
  "fst (send_report_loop rp smtp r N d ks w) = (\<exists>k \<in> set ks. send_report_email rp (smtp k) r)"
  by (induction ks arbitrary: w) (auto simp: Let_def)

text \<open>
  C8. If every delivery attempt fails, \<open>send_report\<close> makes exactly \<open>retry_count\<close>
  attempts, sleeps \<open>retry_delay\<close> seconds between consecutive attempts, and returns
  \<open>False\<close>; and whenever it returns \<open>False\<close>, every one of the \<open>retry_count\<close> attempts has
  failed.
\<close>

theorem send_report_retry_exhaustion:
  "((\<forall>k < nat N. \<not> send_report_email rp (smtp k) r) \<longrightarrow>
      send_report rp fs now smtp r N d w =
        (False, (save_report_backup fs now r w)
                  \<lparr>trace := trace (save_report_backup fs now r w) @ failed_attempts (nat N) d\<rparr>) \<and>
      delivery_attempts (failed_attempts (nat N) d) = nat N) \<and>
   (\<not> fst (send_report rp fs now smtp r N d w) \<longrightarrow>
      (\<forall>k < nat N. \<not> send_report_email rp (smtp k) r))"
proof -
  have a: "send_report rp fs now smtp r N d w =
        (False, (save_report_backup fs now r w)
                  \<lparr>trace := trace (save_report_backup fs now r w) @ failed_attempts (nat N) d\<rparr>)"
    if "\<forall>k < nat N. \<not> send_report_email rp (smtp k) r"
    using send_report_loop_all_fail [OF that refl, where i = 0 and d = d
        and w = "save_report_backup fs now r w"]
    by (simp add: send_report_def)
  have b: "\<forall>k < nat N. \<not> send_report_email rp (smtp k) r"
    if "\<not> fst (send_report rp fs now smtp r N d w)"
    using that by (simp add: send_report_def send_report_loop_result)
  show ?thesis using a b delivery_attempts_failed by blast
qed

theorem send_report_retry_exhaustion_witness:
  "fst (send_report sample_reporter fs_works 0 (\<lambda>k. False) sample_report 3 300 no_effects) = False \<and>
   trace (snd (send_report sample_reporter fs_works 0 (\<lambda>k. False) sample_report 3 300 no_effects)) =
     [FileWrite (ReportBackup 0 Json), FileWrite (ReportBackup 0 Html),
      ReportEmail False, Sleep 300, ReportEmail False, Sleep 300, ReportEmail False]"
proof -
  have h: "\<forall>k < nat 3. \<not> send_report_email sample_reporter ((\<lambda>k. False) k) sample_report"
    by (simp add: send_report_email_def sample_reporter_def sample_report_def truthy_str_def
        format_report_email_def)
  have f: "failed_attempts 3 300 =
      [ReportEmail False, Sleep 300, ReportEmail False, Sleep 300, ReportEmail False]"
    by (simp add: numeral_3_eq_3)
  have b: "trace (save_report_backup fs_works 0 sample_report no_effects) =
      [FileWrite (ReportBackup 0 Json), FileWrite (ReportBackup 0 Html)]"
    by (simp add: save_report_backup_def fs_works_def no_effects_def write_file_def
        format_report_email_def sample_report_def second_stamp_def Let_def)
  from send_report_retry_exhaustion
         [of 3 sample_reporter "\<lambda>k. False" sample_report fs_works 0 300 no_effects] h
  have "send_report sample_reporter fs_works 0 (\<lambda>k. False) sample_report 3 300 no_effects =
        (False, (save_report_backup fs_works 0 sample_report no_effects)
                  \<lparr>trace := trace (save_report_backup fs_works 0 sample_report no_effects)
                            @ failed_attempts (nat 3) 300\<rparr>)"
    by blast
  then show ?thesis by (simp add: f b)
qed




lemma save_alert_backup_writes:
  "\<exists>ws. trace (save_alert_backup fs now a w) = trace w @ ws \<and> (\<forall>e \<in> set ws. is_write e)"
proof -
  define ws where "ws =
    (if \<not> makedirs_ok fs \<or> \<not> json_ok fs then []
     else if \<not> html_ok fs
       then [FileWrite (AlertBackup (lower (alert_type a)) (second_stamp now) Json)]
     else [FileWrite (AlertBackup (lower (alert_type a)) (second_stamp now) Json),
           FileWrite (AlertBackup (lower (alert_type a)) (second_stamp now) Html)])"
  have "trace (save_alert_backup fs now a w) = trace w @ ws"
    by (simp add: save_alert_backup_def write_file_def Let_def ws_def split: sum.splits)
  moreover have "\<forall>e \<in> set ws. is_write e"
    by (simp add: ws_def)
  ultimately show ?thesis by blast
qed










text \<open>
  An alert of another type (the TEST alert of the HTTP front end) is not rendered: its
  HTML backup is left empty and its email is never sent.
\<close>

lemma test_alert_not_rendered:
  "files (snd (send_alert sample_reporter fs_works 0 True (sample_alert ''TEST'') no_effects))
     (AlertBackup ''test'' 0 Html) = Some EmptyFile \<and>
   fst (send_alert sample_reporter fs_works 0 True (sample_alert ''TEST'') no_effects) = False"
  by (simp add: send_alert_def save_alert_backup_def send_alert_email_def sample_reporter_def
      truthy_str_def format_alert_email_def sample_alert_def no_effects_def record_event_def
      write_file_def fs_works_def lower_def lower_char_def second_stamp_def Let_def)

section \<open>Properties of the probe loop\<close>

lemma alerts_emitted_append:
  "alerts_emitted (xs @ ys) = alerts_emitted xs @ alerts_emitted ys"
  by (induction xs rule: alerts_emitted.induct) auto

lemma alerts_emitted_writes: "\<forall>e \<in> set ws. is_write e \<Longrightarrow> alerts_emitted ws = []"
proof (induction ws)
  case Nil
  show ?case by simp
next
  case (Cons e ws)
  then show ?case by (cases e) auto
qed

lemma send_alert_alerts:
  "alerts_emitted (trace (snd (send_alert rp fs now ok a w))) =
     alerts_emitted (trace w) @ [alert_type a]"
proof -
  obtain ws where ws: "trace (save_alert_backup fs now a w) = trace w @ ws"
    "\<forall>e \<in> set ws. is_write e"
    using save_alert_backup_writes by blast
  have "trace (snd (send_alert rp fs now ok a w)) =
      trace w @ ws @ [AlertEmail (alert_type a) (send_alert_email rp ok a)]"
    using ws(1) by (simp add: send_alert_def record_event_def Let_def)
  then show ?thesis
    by (simp add: alerts_emitted_append alerts_emitted_writes [OF ws(2)])
qed

lemma ping_service_flag:
  "service_down_notified (snd (ping_service mgr env)) = (\<not> observed_healthy mgr env)"
  by (auto simp: ping_service_def observed_healthy_def is_service_healthy_def Let_def)

lemma ping_service_prober: "keep_alive (snd (ping_service mgr env)) = keep_alive mgr"
  by (simp add: ping_service_def Let_def)

lemma observed_healthy_after:
  "observed_healthy (snd (ping_service mgr env)) env' = observed_healthy mgr env'"
  by (simp add: observed_healthy_def ping_service_prober)

lemma ping_service_alerts:
  "alerts_of (snd (ping_service mgr env)) =
     alerts_of mgr @
       (if \<not> observed_healthy mgr env \<and> \<not> service_down_notified mgr then [''DOWNTIME'']
        else if observed_healthy mgr env \<and> service_down_notified mgr then [''RECOVERY'']
        else [])"
proof -
  have d: "alerts_emitted (trace (send_immediate_downtime_alert mgr env results)) =
      alerts_emitted (trace (fx mgr)) @ [''DOWNTIME'']" for results
    by (simp add: send_immediate_downtime_alert_def Let_def send_alert_alerts)
  have r: "alerts_emitted (trace (send_service_recovery_alert mgr env results)) =
      alerts_emitted (trace (fx mgr)) @ [''RECOVERY'']" for results
    by (simp add: send_service_recovery_alert_def Let_def send_alert_alerts)
  show ?thesis
    by (simp add: ping_service_def observed_healthy_def is_service_healthy_def Let_def
        alerts_of_def d r)
qed

text \<open>
  C1. Starting with the down-notified flag unset, four probe cycles that observe the
  service down, down, down and up emit exactly one DOWNTIME alert, in the first cycle,
  and exactly one RECOVERY alert, in the fourth; the second and third cycles emit none.
  The prober's configuration does not change from cycle to cycle, so what a cycle
  observes is fixed by what it meets.
\<close>

theorem transition_suppression:
  assumes "\<not> service_down_notified mgr"
      and "\<not> observed_healthy mgr e1" and "\<not> observed_healthy mgr e2"
      and "\<not> observed_healthy mgr e3" and "observed_healthy mgr e4"
  shows "alerts_of (run_keep_alive mgr [e1]) = alerts_of mgr @ [''DOWNTIME''] \<and>
         alerts_of (run_keep_alive mgr [e1, e2]) = alerts_of mgr @ [''DOWNTIME''] \<and>
         alerts_of (run_keep_alive mgr [e1, e2, e3]) = alerts_of mgr @ [''DOWNTIME''] \<and>
         alerts_of (run_keep_alive mgr [e1, e2, e3, e4]) =
           alerts_of mgr @ [''DOWNTIME'', ''RECOVERY'']"
proof -
  define m1 where "m1 = snd (ping_service mgr e1)"
  define m2 where "m2 = snd (ping_service m1 e2)"
  define m3 where "m3 = snd (ping_service m2 e3)"
  define m4 where "m4 = snd (ping_service m3 e4)"
  have h1: "observed_healthy m1 e = observed_healthy mgr e" for e
    by (simp add: m1_def observed_healthy_after)
  have h2: "observed_healthy m2 e = observed_healthy mgr e" for e
    by (simp add: m2_def observed_healthy_after h1)
  have h3: "observed_healthy m3 e = observed_healthy mgr e" for e
    by (simp add: m3_def observed_healthy_after h2)
  have f1: "service_down_notified m1" using assms(2) by (simp add: m1_def ping_service_flag)
  have f2: "service_down_notified m2" using assms(3) by (simp add: m2_def ping_service_flag h1)
  have f3: "service_down_notified m3" using assms(4) by (simp add: m3_def ping_service_flag h2)
  have a1: "alerts_of m1 = alerts_of mgr @ [''DOWNTIME'']"
    using assms(1,2) by (simp add: m1_def ping_service_alerts)
  have a2: "alerts_of m2 = alerts_of m1"
    using assms(3) f1 by (simp add: m2_def ping_service_alerts h1)
  have a3: "alerts_of m3 = alerts_of m2"
    using assms(4) f2 by (simp add: m3_def ping_service_alerts h2)
  have a4: "alerts_of m4 = alerts_of m3 @ [''RECOVERY'']"
    using assms(5) f3 by (simp add: m4_def ping_service_alerts h3)
  have "run_keep_alive mgr [e1] = m1" "run_keep_alive mgr [e1, e2] = m2"
    "run_keep_alive mgr [e1, e2, e3] = m3" "run_keep_alive mgr [e1, e2, e3, e4] = m4"
    by (simp_all add: m1_def m2_def m3_def m4_def)
  then show ?thesis by (simp add: a1 a2 a3 a4)
qed

lemma observed_down:
  "\<not> observed_healthy (RenderServiceManager default_config logs rp) (cycle_down sent)"
  by (simp add: observed_healthy_def is_service_healthy_def RenderServiceManager_def
      default_config_def cycle_down_def get_or_def RenderKeepAlive_def ping_all_endpoints_def
      ping_endpoint_def Let_def)

lemma observed_up:
  "observed_healthy (RenderServiceManager default_config logs rp) (cycle_up sent)"
  by (simp add: observed_healthy_def is_service_healthy_def RenderServiceManager_def
      default_config_def cycle_up_def get_or_def RenderKeepAlive_def ping_all_endpoints_def
      ping_endpoint_def Let_def)

lemma initial_state:
  "\<not> service_down_notified (RenderServiceManager cfg logs rp)"
  "alerts_of (RenderServiceManager cfg logs rp) = []"
  by (simp_all add: RenderServiceManager_def alerts_of_def)

theorem transition_suppression_witness:
  "alerts_of (run_keep_alive (RenderServiceManager default_config [] sample_reporter)
               [cycle_down True]) = [''DOWNTIME''] \<and>
   alerts_of (run_keep_alive (RenderServiceManager default_config [] sample_reporter)
               [cycle_down True, cycle_down True]) = [''DOWNTIME''] \<and>
   alerts_of (run_keep_alive (RenderServiceManager default_config [] sample_reporter)
               [cycle_down True, cycle_down True, cycle_down True]) = [''DOWNTIME''] \<and>
   alerts_of (run_keep_alive (RenderServiceManager default_config [] sample_reporter)
               [cycle_down True, cycle_down True, cycle_down True, cycle_up True]) =
     [''DOWNTIME'', ''RECOVERY'']"
proof -
  let ?M = "RenderServiceManager default_config [] sample_reporter"
  have i: "\<not> service_down_notified ?M" by (rule initial_state(1))
  have d: "\<not> observed_healthy ?M (cycle_down True)" by (rule observed_down)
  have u: "observed_healthy ?M (cycle_up True)" by (rule observed_up)
  from transition_suppression [OF i d d d u] show ?thesis
    by (simp add: initial_state(2))
qed

text \<open>
  C10. The flag follows the observation whatever the delivery of the alert does: an
  unhealthy observation with the flag unset sets it and emits one DOWNTIME alert, after
  which a further unhealthy observation emits nothing; a healthy observation with the
  flag set clears it and emits one RECOVERY alert, after which an unhealthy observation
  emits a fresh DOWNTIME alert. Nothing here depends on what \<open>send_alert\<close> returns.
\<close>

theorem transition_independent_of_delivery:
  "(\<not> observed_healthy mgr env \<and> \<not> service_down_notified mgr \<longrightarrow>
      service_down_notified (snd (ping_service mgr env)) \<and>
      alerts_of (snd (ping_service mgr env)) = alerts_of mgr @ [''DOWNTIME''] \<and>
      (\<not> observed_healthy mgr env' \<longrightarrow>
         alerts_of (snd (ping_service (snd (ping_service mgr env)) env')) =
           alerts_of (snd (ping_service mgr env)))) \<and>
   (observed_healthy mgr env \<and> service_down_notified mgr \<longrightarrow>
      \<not> service_down_notified (snd (ping_service mgr env)) \<and>
      alerts_of (snd (ping_service mgr env)) = alerts_of mgr @ [''RECOVERY''] \<and>
      (\<not> observed_healthy mgr env' \<longrightarrow>
         alerts_of (snd (ping_service (snd (ping_service mgr env)) env')) =
           alerts_of (snd (ping_service mgr env)) @ [''DOWNTIME'']))"
  by (simp add: ping_service_flag ping_service_alerts observed_healthy_after)


theorem transition_independent_of_delivery_witness:
  "service_down_notified
     (snd (ping_service (RenderServiceManager default_config [] sample_reporter) (cycle_down False))) \<and>
   last (trace (fx (snd (ping_service (RenderServiceManager default_config [] sample_reporter)
                          (cycle_down False))))) = AlertEmail ''DOWNTIME'' False \<and>
   alerts_of (snd (ping_service
                (snd (ping_service (RenderServiceManager default_config [] sample_reporter)
                       (cycle_down False)))
                (cycle_down False))) = [''DOWNTIME''] \<and>
   \<not> service_down_notified
       (snd (ping_service
              (snd (ping_service (RenderServiceManager default_config [] sample_reporter)
                     (cycle_down False)))
              (cycle_up False))) \<and>
   alerts_of (snd (ping_service
                (snd (ping_service
                       (snd (ping_service (RenderServiceManager default_config [] sample_reporter)
                              (cycle_down False)))
                       (cycle_up False)))
                (cycle_down False))) = [''DOWNTIME'', ''RECOVERY'', ''DOWNTIME'']"
proof -
  let ?M = "RenderServiceManager default_config [] sample_reporter"
  let ?M1 = "snd (ping_service ?M (cycle_down False))"
  have i: "\<not> service_down_notified ?M" by (rule initial_state(1))
  have d: "\<not> observed_healthy ?M (cycle_down False)" by (rule observed_down)
  have u: "observed_healthy ?M (cycle_up False)" by (rule observed_up)
  have d1: "\<not> observed_healthy ?M1 (cycle_down False)"
    using d by (simp add: observed_healthy_after)
  have u1: "observed_healthy ?M1 (cycle_up False)"
    using u by (simp add: observed_healthy_after)
  from transition_independent_of_delivery [of ?M "cycle_down False" "cycle_down False"] i d
  have a: "service_down_notified ?M1" "alerts_of ?M1 = [''DOWNTIME'']"
    "alerts_of (snd (ping_service ?M1 (cycle_down False))) = [''DOWNTIME'']"
    by (simp_all add: initial_state(2))
  from transition_independent_of_delivery [of ?M1 "cycle_up False" "cycle_down False"] a(1) u1 d1
  have b: "\<not> service_down_notified (snd (ping_service ?M1 (cycle_up False)))"
    "alerts_of (snd (ping_service (snd (ping_service ?M1 (cycle_up False))) (cycle_down False))) =
       [''DOWNTIME'', ''RECOVERY'', ''DOWNTIME'']"
    by (simp_all add: a(2))
  have h: "\<not> py_any (map (\<lambda>result. status result = ''UP'')
              (ping_all_endpoints (keep_alive ?M) (cycle_http (cycle_down False))
                 (cycle_clock (cycle_down False))))"
    using d by (simp add: observed_healthy_def is_service_healthy_def)
  have e: "last (trace (fx ?M1)) = AlertEmail ''DOWNTIME'' False"
    using h i
    by (simp add: ping_service_def Let_def send_immediate_downtime_alert_def send_alert_def
        record_event_def send_alert_email_def cycle_down_def format_alert_email_def)
  show ?thesis using a b e by simp
qed

section \<open>Properties of the report loop\<close>






















end
